theory Spec2Isabelle
  imports Main "HOL-Library.AList"
begin

section \<open>Banner Chat signaling server: the model of \<^verbatim>\<open>server.js\<close>\<close>

text \<open>
  The server keeps three process-wide JavaScript Maps (\<^verbatim>\<open>activeRooms\<close>,
  \<^verbatim>\<open>userSockets\<close>, \<^verbatim>\<open>userConnections\<close>) and, for every accepted socket, a
  closure holding \<^verbatim>\<open>clientIp\<close> and the mutable object \<^verbatim>\<open>userData\<close>. Every handler
  runs to completion, so a handler is a function from the state before to the state
  after, together with the list of events it emitted, in emission order.

  Strings are ASCII character lists. \<^verbatim>\<open>Date.now()\<close> and \<^verbatim>\<open>generateId()\<close> are inputs
  of the event that reads them. A payload field is a string or absent
  (\<^verbatim>\<open>undefined\<close>); a payload that is no object at all is \<open>None\<close> and makes the
  destructuring at the head of the handler throw into its \<^verbatim>\<open>catch\<close>.
\<close>

subsection \<open>Strings\<close>

type_synonym sid = string

definition upper_char :: "char \<Rightarrow> char" where
  "upper_char c =
     (let n = (of_char c :: nat) in if 97 \<le> n \<and> n \<le> 122 then char_of (n - 32) else c)"

definition toUpperCase :: "string \<Rightarrow> string" where
  "toUpperCase s = map upper_char s"

definition is_space :: "char \<Rightarrow> bool" where
  "is_space c = ((of_char c :: nat) \<in> {9, 10, 11, 12, 13, 32})"

definition trim :: "string \<Rightarrow> string" where
  "trim s = rev (dropWhile is_space (rev (dropWhile is_space s)))"

text \<open>\<^verbatim>\<open>x.toUpperCase().trim()\<close>, the normal form of nicknames and room codes.\<close>

definition clean :: "string \<Rightarrow> string" where
  "clean s = trim (toUpperCase s)"

text \<open>JavaScript truthiness of a value that is a string or \<^verbatim>\<open>undefined\<close>/\<^verbatim>\<open>null\<close>.\<close>

fun falsy :: "string option \<Rightarrow> bool" where
  "falsy None = True"
| "falsy (Some s) = (s = [])"

fun str :: "string option \<Rightarrow> string" where
  "str None = []"
| "str (Some s) = s"

subsection \<open>State\<close>

text \<open>The values of \<^verbatim>\<open>room.users\<close>.\<close>

record member =
  m_socketId :: sid
  m_nickname :: string
  m_joinTime :: int

text \<open>
  A room. \<^verbatim>\<open>users\<close> is a JavaScript Map, which iterates in insertion order: an
  association list, written with \<open>AList.update\<close> (in place for a key that is there, at the
  end for a new one) and \<open>AList.delete\<close>.
\<close>

record room =
  code :: string
  users :: "(sid \<times> member) list"
  created :: int
  lastActivity :: int

record userData =
  socketId :: sid
  nickname :: "string option"
  roomCode :: "string option"
  joinTime :: int

text \<open>What the handlers of one accepted socket close over.\<close>

record conn =
  clientIp :: string
  userData :: userData

text \<open>
  \<^verbatim>\<open>userSockets\<close> maps a socket id to the very \<^verbatim>\<open>userData\<close> object of that socket's
  closure, so the model keeps the objects in one place, \<open>conns\<close>, and the keys of
  \<^verbatim>\<open>userSockets\<close>, in insertion order, in \<open>userSockets\<close>. \<open>conns\<close> holds a socket from
  the moment it is accepted to its disconnect: these are the sockets with handlers.

  \<open>adapter\<close> is the transport's room table (socket.io): the sockets of every named room.
  A socket is put into the room named by its own id when it connects, \<^verbatim>\<open>socket.join\<close>
  and \<^verbatim>\<open>socket.leave\<close> add and remove it, and it leaves every room when it disconnects,
  before the \<^verbatim>\<open>disconnect\<close> handler runs.
\<close>

record server =
  activeRooms :: "string \<rightharpoonup> room"
  userSockets :: "sid list"
  userConnections :: "string \<rightharpoonup> nat"
  conns :: "sid \<rightharpoonup> conn"
  adapter :: "string \<Rightarrow> sid set"

definition MAX_CONNECTIONS_PER_IP :: nat where
  "MAX_CONNECTIONS_PER_IP = 10"

definition init :: server where
  "init = \<lparr>activeRooms = Map.empty, userSockets = [], userConnections = Map.empty,
           conns = Map.empty, adapter = (\<lambda>_. {})\<rparr>"

subsection \<open>Events\<close>

datatype join_data = JoinData "string option" "string option"
datatype signal_data = SignalData "string option" "string option" "string option"
datatype chat_data = ChatData "string option" "string option"
datatype invite_data = InviteData "string option" "string option" "string option"

text \<open>
  What the server reacts to: the transport's \<^verbatim>\<open>connection\<close> event (socket id, handshake
  address, clock), the six socket events, and the timer of \<^verbatim>\<open>cleanupInactiveRooms\<close>.
\<close>

datatype in_event =
    Connection sid string int
  | JoinRoom sid "join_data option" int
  | WebrtcSignal sid "signal_data option"
  | ChatMessage sid "chat_data option" int string
  | PrivateChatInvite sid "invite_data option"
  | LeaveRoom sid int
  | Disconnect sid int
  | CleanupTick int

text \<open>How an emission is addressed: \<^verbatim>\<open>socket.emit\<close>, \<^verbatim>\<open>io.to(r).emit\<close>, \<^verbatim>\<open>socket.to(r).emit\<close>.\<close>

datatype target = SocketEmit sid | IoTo string | SocketTo sid string

record roster_entry =
  r_socketId :: sid
  r_nickname :: string
  r_isMe :: "bool option"

datatype out_event =
    ErrorEv string
  | JoinErrorEv string
  | RoomJoinedEv string string nat
  | UsersUpdatedEv "roster_entry list" nat
  | UserJoinedEv sid string
  | UserLeftEv sid "string option"
  | WebrtcSignalEv sid "string option" string "string option"
  | ChatMessageEv string "string option" string int
  | PrivateChatInviteEv string string string

text \<open>
  An emission, with the sockets the transport hands it to at that moment:
  \<^verbatim>\<open>socket.emit\<close> reaches the socket itself, \<^verbatim>\<open>io.to(r)\<close> every socket of the room
  \<open>r\<close>, \<^verbatim>\<open>socket.to(r)\<close> every socket of the room but the sender.
\<close>

record emission =
  target :: target
  receivers :: "sid set"
  event :: out_event

definition socket_emit :: "sid \<Rightarrow> out_event \<Rightarrow> emission" where
  "socket_emit s ev = \<lparr>target = SocketEmit s, receivers = {s}, event = ev\<rparr>"

definition io_to :: "server \<Rightarrow> string \<Rightarrow> out_event \<Rightarrow> emission" where
  "io_to st r ev = \<lparr>target = IoTo r, receivers = adapter st r, event = ev\<rparr>"

definition socket_to :: "server \<Rightarrow> sid \<Rightarrow> string \<Rightarrow> out_event \<Rightarrow> emission" where
  "socket_to st s r ev = \<lparr>target = SocketTo s r, receivers = adapter st r - {s}, event = ev\<rparr>"

definition socket_join :: "sid \<Rightarrow> string \<Rightarrow> server \<Rightarrow> server" where
  "socket_join s r st = st\<lparr>adapter := (adapter st)(r := insert s (adapter st r))\<rparr>"

definition socket_leave :: "sid \<Rightarrow> string \<Rightarrow> server \<Rightarrow> server" where
  "socket_leave s r st = st\<lparr>adapter := (adapter st)(r := adapter st r - {s})\<rparr>"

definition leave_all :: "sid \<Rightarrow> server \<Rightarrow> server" where
  "leave_all s st = st\<lparr>adapter := (\<lambda>r. adapter st r - {s})\<rparr>"

subsection \<open>Handlers\<close>

text \<open>An assignment to a field of the socket's \<^verbatim>\<open>userData\<close>.\<close>

definition set_userData :: "sid \<Rightarrow> (userData \<Rightarrow> userData) \<Rightarrow> server \<Rightarrow> server" where
  "set_userData s f st =
     (case conns st s of
        None \<Rightarrow> st
      | Some c \<Rightarrow> st\<lparr>conns := (conns st)(s \<mapsto> c\<lparr>userData := f (userData c)\<rparr>)\<rparr>)"

text \<open>\<^verbatim>\<open>Array.from(room.users.values()).map(...)\<close>; only the join's roster carries \<^verbatim>\<open>isMe\<close>.\<close>

definition roster :: "sid option \<Rightarrow> (sid \<times> member) list \<Rightarrow> roster_entry list" where
  "roster me us =
     map (\<lambda>(k, u). \<lparr>r_socketId = m_socketId u, r_nickname = m_nickname u,
                     r_isMe = map_option (\<lambda>s. m_socketId u = s) me\<rparr>) us"

text \<open>\<^verbatim>\<open>userConnections.get(clientIp) || 0\<close>\<close>

definition connection_count :: "server \<Rightarrow> string \<Rightarrow> nat" where
  "connection_count st ip = (case userConnections st ip of None \<Rightarrow> 0 | Some n \<Rightarrow> n)"

text \<open>The body of \<^verbatim>\<open>io.on('connection')\<close>, lines 83 to 111.\<close>

definition on_connection :: "server \<Rightarrow> sid \<Rightarrow> string \<Rightarrow> int \<Rightarrow> server \<times> emission list" where
  "on_connection st0 s clientIp' now =
     (let st = socket_join s s st0;
          connectionCount = connection_count st clientIp'
      in if connectionCount \<ge> MAX_CONNECTIONS_PER_IP
         then (leave_all s st, [socket_emit s (ErrorEv ''Too many connections from this IP'')])
         else (st\<lparr>userConnections := (userConnections st)(clientIp' \<mapsto> connectionCount + 1),
                  conns := (conns st)(s \<mapsto> \<lparr>clientIp = clientIp',
                     userData = \<lparr>socketId = s, nickname = None, roomCode = None,
                                  joinTime = now\<rparr>\<rparr>),
                  userSockets := (if s \<in> set (userSockets st) then userSockets st
                                  else userSockets st @ [s])\<rparr>, []))"

text \<open>The \<^verbatim>\<open>join-room\<close> handler, lines 114 to 206.\<close>

definition join_room ::
  "server \<Rightarrow> sid \<Rightarrow> join_data option \<Rightarrow> int \<Rightarrow> server \<times> emission list" where
  "join_room st s data now =
     (case data of
        None \<Rightarrow> (st, [socket_emit s (JoinErrorEv ''Failed to join room'')])
      | Some (JoinData roomCode' nickname') \<Rightarrow>
          if falsy roomCode' \<or> falsy nickname' \<or>
             length (str roomCode') > 50 \<or> length (str nickname') > 16
          then (st, [socket_emit s (JoinErrorEv ''Invalid room code or nickname'')])
          else
            let cleanNickname = clean (str nickname');
                cleanRoomCode = clean (str roomCode');
                st1 = set_userData s
                        (\<lambda>u. u\<lparr>nickname := Some cleanNickname, roomCode := Some cleanRoomCode\<rparr>) st;
                room = (case activeRooms st1 cleanRoomCode of
                          None \<Rightarrow> \<lparr>code = cleanRoomCode, users = [], created = now,
                                    lastActivity = now\<rparr>
                        | Some r \<Rightarrow> r);
                st2 = st1\<lparr>activeRooms := (activeRooms st1)(cleanRoomCode \<mapsto> room)\<rparr>
            in if \<exists>(userId, user) \<in> set (users room).
                    m_nickname user = cleanNickname \<and> userId \<noteq> s
               then (st2, [socket_emit s (JoinErrorEv ''Nickname already taken in this room'')])
               else
                 let users' = AList.update s
                        \<lparr>m_socketId = s, m_nickname = cleanNickname, m_joinTime = now\<rparr>
                        (users room);
                     room' = room\<lparr>users := users', lastActivity := now\<rparr>;
                     st3 = st2\<lparr>activeRooms := (activeRooms st2)(cleanRoomCode \<mapsto> room')\<rparr>;
                     st4 = socket_join s cleanRoomCode st3
                 in (st4,
                     [socket_emit s (RoomJoinedEv cleanRoomCode cleanNickname (length users')),
                      io_to st4 cleanRoomCode
                        (UsersUpdatedEv (roster (Some s) users') (length users')),
                      socket_to st4 s cleanRoomCode (UserJoinedEv s cleanNickname)]))"

text \<open>The \<^verbatim>\<open>webrtc-signal\<close> handler, lines 209 to 234.\<close>

definition webrtc_signal ::
  "server \<Rightarrow> sid \<Rightarrow> conn \<Rightarrow> signal_data option \<Rightarrow> server \<times> emission list" where
  "webrtc_signal st s c data =
     (case data of
        None \<Rightarrow> (st, [])
      | Some (SignalData targetSocketId signal type') \<Rightarrow>
          if falsy targetSocketId \<or> falsy signal then (st, [])
          else (st, [socket_to st s (str targetSocketId)
                       (WebrtcSignalEv s (nickname (userData c)) (str signal) type')]))"

text \<open>The \<^verbatim>\<open>chat-message\<close> handler, lines 237 to 276.\<close>

definition chat_message ::
  "server \<Rightarrow> sid \<Rightarrow> conn \<Rightarrow> chat_data option \<Rightarrow> int \<Rightarrow> string \<Rightarrow> server \<times> emission list" where
  "chat_message st s c data now generatedId =
     (case data of
        None \<Rightarrow> (st, [])
      | Some (ChatData message roomCode') \<Rightarrow>
          if falsy (roomCode (userData c)) \<or> roomCode (userData c) \<noteq> roomCode' then (st, [])
          else if falsy message \<or> length (str message) > 500 then (st, [])
          else
            (case activeRooms st (str roomCode') of
               None \<Rightarrow> (st, [])
             | Some room \<Rightarrow>
                 if s \<notin> fst ` set (users room) then (st, [])
                 else (st\<lparr>activeRooms := (activeRooms st)(str roomCode' \<mapsto>
                             room\<lparr>lastActivity := now\<rparr>)\<rparr>,
                       [socket_to st s (str roomCode')
                          (ChatMessageEv generatedId (nickname (userData c)) (str message) now)])))"

text \<open>
  The \<^verbatim>\<open>private-chat-invite\<close> handler, lines 279 to 332. The loop over
  \<^verbatim>\<open>userSockets.entries()\<close> stops at the first session whose nickname is \<^verbatim>\<open>===\<close> to
  \<^verbatim>\<open>toUser\<close>.
\<close>

definition session_nickname :: "server \<Rightarrow> sid \<Rightarrow> string option" where
  "session_nickname st k = (case conns st k of None \<Rightarrow> None | Some c \<Rightarrow> nickname (userData c))"

definition find_target :: "server \<Rightarrow> string option \<Rightarrow> sid option" where
  "find_target st toUser = List.find (\<lambda>k. session_nickname st k = toUser) (userSockets st)"

definition private_chat_invite ::
  "server \<Rightarrow> sid \<Rightarrow> invite_data option \<Rightarrow> server \<times> emission list" where
  "private_chat_invite st s data =
     (case data of
        None \<Rightarrow> (st, [])
      | Some (InviteData fromUser toUser roomCode') \<Rightarrow>
          if falsy fromUser \<or> falsy toUser \<or> falsy roomCode' then (st, [])
          else
            (case find_target st toUser of
               None \<Rightarrow> (st, [])
             | Some targetSocketId \<Rightarrow>
                 if targetSocketId = [] then (st, [])
                 else (st, [io_to st targetSocketId
                              (PrivateChatInviteEv (str fromUser) (str toUser) (str roomCode'))])))"

text \<open>\<^verbatim>\<open>handleUserLeave\<close>, lines 358 to 404.\<close>

definition handleUserLeave :: "server \<Rightarrow> sid \<Rightarrow> conn \<Rightarrow> int \<Rightarrow> server \<times> emission list" where
  "handleUserLeave st s c now =
     (let (st1, out) =
            (if falsy (roomCode (userData c)) then (st, [])
             else
               let rc = str (roomCode (userData c));
                   (stR, outR) =
                     (case activeRooms st rc of
                        None \<Rightarrow> (st, [])
                      | Some room \<Rightarrow>
                          let users' = AList.delete s (users room);
                              room' = room\<lparr>users := users', lastActivity := now\<rparr>;
                              stA = st\<lparr>activeRooms := (activeRooms st)(rc \<mapsto> room')\<rparr>;
                              e1 = socket_to stA s rc (UserLeftEv s (nickname (userData c)));
                              e2 = io_to stA rc
                                     (UsersUpdatedEv (roster None users') (length users'));
                              stB = (if length users' = 0
                                     then stA\<lparr>activeRooms := (activeRooms stA)(rc := None)\<rparr>
                                     else stA)
                          in (stB, [e1, e2]))
               in (socket_leave s rc stR, outR));
          st2 = st1\<lparr>userSockets := removeAll s (userSockets st1)\<rparr>
      in (set_userData s (\<lambda>u. u\<lparr>roomCode := None\<rparr>) st2, out))"

text \<open>
  The \<^verbatim>\<open>disconnect\<close> handler, lines 340 to 356. The transport has taken the socket out
  of every room before the handler runs; afterwards the socket has no handlers left.
\<close>

definition disconnect :: "server \<Rightarrow> sid \<Rightarrow> conn \<Rightarrow> int \<Rightarrow> server \<times> emission list" where
  "disconnect st0 s c now =
     (let (st1, out) = handleUserLeave (leave_all s st0) s c now;
          connectionCount = (case userConnections st1 (clientIp c) of
                               None \<Rightarrow> 1
                             | Some n \<Rightarrow> if n = 0 then 1 else n);
          st2 = (if connectionCount \<le> 1
                 then st1\<lparr>userConnections := (userConnections st1)(clientIp c := None)\<rparr>
                 else st1\<lparr>userConnections :=
                            (userConnections st1)(clientIp c \<mapsto> connectionCount - 1)\<rparr>)
      in (st2\<lparr>conns := (conns st2)(s := None)\<rparr>, out))"

text \<open>\<^verbatim>\<open>cleanupInactiveRooms\<close>, lines 45 to 53.\<close>

definition cleanupInactiveRooms :: "server \<Rightarrow> int \<Rightarrow> server" where
  "cleanupInactiveRooms st now =
     st\<lparr>activeRooms := (\<lambda>k. case activeRooms st k of
                              None \<Rightarrow> None
                            | Some room \<Rightarrow>
                                if now - lastActivity room > 30 * 60 * 1000 then None
                                else Some room)\<rparr>"

text \<open>
  One event. The transport gives every connection a fresh, non-empty id. Socket events
  reach the handlers of an accepted socket only: a socket that was rejected, or has
  disconnected, has none.
\<close>

fun handle :: "server \<Rightarrow> in_event \<Rightarrow> server \<times> emission list" where
  "handle st (Connection s ip now) =
     (if s = [] \<or> s \<in> dom (conns st) then (st, []) else on_connection st s ip now)"
| "handle st (JoinRoom s data now) =
     (case conns st s of None \<Rightarrow> (st, []) | Some c \<Rightarrow> join_room st s data now)"
| "handle st (WebrtcSignal s data) =
     (case conns st s of None \<Rightarrow> (st, []) | Some c \<Rightarrow> webrtc_signal st s c data)"
| "handle st (ChatMessage s data now generatedId) =
     (case conns st s of None \<Rightarrow> (st, []) | Some c \<Rightarrow> chat_message st s c data now generatedId)"
| "handle st (PrivateChatInvite s data) =
     (case conns st s of None \<Rightarrow> (st, []) | Some c \<Rightarrow> private_chat_invite st s data)"
| "handle st (LeaveRoom s now) =
     (case conns st s of None \<Rightarrow> (st, []) | Some c \<Rightarrow> handleUserLeave st s c now)"
| "handle st (Disconnect s now) =
     (case conns st s of None \<Rightarrow> (st, []) | Some c \<Rightarrow> disconnect st s c now)"
| "handle st (CleanupTick now) = (cleanupInactiveRooms st now, [])"

fun run :: "server \<Rightarrow> in_event list \<Rightarrow> server" where
  "run st [] = st"
| "run st (ev # evs) = run (fst (handle st ev)) evs"

inductive reachable :: "server \<Rightarrow> bool" where
  start: "reachable init"
| step: "reachable st \<Longrightarrow> reachable (fst (handle st ev))"

subsection \<open>Observers\<close>

text \<open>The room field of a socket's session.\<close>

definition session_room :: "server \<Rightarrow> sid \<Rightarrow> string option" where
  "session_room st k = (case conns st k of None \<Rightarrow> None | Some c \<Rightarrow> roomCode (userData c))"



text \<open>
  What holds of the transport's room table and of the sessions in every reachable state:
  a room holds sockets with handlers only, a socket sits in a room other than its own
  only through \<^verbatim>\<open>socket.join(cleanRoomCode)\<close>, a socket whose id is not a cleaned
  string is in its own room, every stored room code is a cleaned string, and the
  registry holds sockets with handlers only.
\<close>

definition transport_ok :: "server \<Rightarrow> bool" where
  "transport_ok st \<longleftrightarrow>
     (\<forall>g x. x \<in> adapter st g \<longrightarrow> conns st x \<noteq> None \<and> (x = g \<or> clean g = g)) \<and>
     (\<forall>s c. conns st s = Some c \<longrightarrow>
        s \<noteq> [] \<and> (clean s \<noteq> s \<longrightarrow> s \<in> adapter st s) \<and>
        (\<forall>rc. roomCode (userData c) = Some rc \<longrightarrow> clean rc = rc)) \<and>
     set (userSockets st) \<subseteq> dom (conns st)"

text \<open>The socket whose handler an event runs.\<close>

fun handler_socket :: "in_event \<Rightarrow> sid option" where
  "handler_socket (Connection s ip now) = None"
| "handler_socket (JoinRoom s d now) = Some s"
| "handler_socket (WebrtcSignal s d) = Some s"
| "handler_socket (ChatMessage s d now gid) = Some s"
| "handler_socket (PrivateChatInvite s d) = Some s"
| "handler_socket (LeaveRoom s now) = Some s"
| "handler_socket (Disconnect s now) = Some s"
| "handler_socket (CleanupTick now) = None"

text \<open>The sockets of an address that are open: accepted and not yet disconnected.\<close>

definition open_connections :: "server \<Rightarrow> string \<Rightarrow> sid set" where
  "open_connections st ip = {s. \<exists>c. conns st s = Some c \<and> clientIp c = ip}"

text \<open>
  The counters of \<^verbatim>\<open>userConnections\<close> are exact: an address has an entry when it has
  an open socket, and the entry counts its open sockets.
\<close>

definition counters_ok :: "server \<Rightarrow> bool" where
  "counters_ok st \<longleftrightarrow>
     finite (dom (conns st)) \<and>
     (\<forall>ip. userConnections st ip \<noteq> Some 0 \<and>
           connection_count st ip = card (open_connections st ip))"

text \<open>
  The cleaned room code and nickname of a \<^verbatim>\<open>join-room\<close> payload that passes the
  validation of lines 119 to 123.
\<close>

definition join_request :: "join_data option \<Rightarrow> (string \<times> string) option" where
  "join_request data =
     (case data of
        None \<Rightarrow> None
      | Some (JoinData roomCode' nickname') \<Rightarrow>
          if falsy roomCode' \<or> falsy nickname' \<or>
             length (str roomCode') > 50 \<or> length (str nickname') > 16
          then None
          else Some (clean (str roomCode'), clean (str nickname')))"

text \<open>The collision scan of lines 147 to 154, on the room of that code.\<close>

definition nickname_taken :: "server \<Rightarrow> sid \<Rightarrow> string \<Rightarrow> string \<Rightarrow> bool" where
  "nickname_taken st s rc nick =
     (case activeRooms st rc of
        None \<Rightarrow> False
      | Some r \<Rightarrow> \<exists>(userId, user) \<in> set (users r). m_nickname user = nick \<and> userId \<noteq> s)"

text \<open>
  In every room the keys of \<^verbatim>\<open>users\<close> are distinct (it is a Map) and no two members
  have the same nickname.
\<close>

definition rooms_ok :: "server \<Rightarrow> bool" where
  "rooms_ok st \<longleftrightarrow>
     (\<forall>k r. activeRooms st k = Some r \<longrightarrow>
        distinct (map fst (users r)) \<and> distinct (map (\<lambda>(k, u). m_nickname u) (users r)))"


subsection \<open>Example runs\<close>

definition st_a :: server where
  "st_a = run init [Connection ''a'' ''ip'' 0]"

definition st_lobby :: server where
  "st_lobby = run init
     [Connection ''a'' ''ip'' 0,
      JoinRoom ''a'' (Some (JoinData (Some ''Lobby'') (Some ''alice''))) 1]"

text \<open>Ten sockets from one address.\<close>

definition st_full :: server where
  "st_full = run init
     [Connection ''c0'' ''ip'' 0, Connection ''c1'' ''ip'' 0, Connection ''c2'' ''ip'' 0,
      Connection ''c3'' ''ip'' 0, Connection ''c4'' ''ip'' 0, Connection ''c5'' ''ip'' 0,
      Connection ''c6'' ''ip'' 0, Connection ''c7'' ''ip'' 0, Connection ''c8'' ''ip'' 0,
      Connection ''c9'' ''ip'' 0]"

text \<open>Two sockets, the first of them in the room LOBBY.\<close>

definition st_two :: server where
  "st_two = run init
     [Connection ''a'' ''ip1'' 0, Connection ''b'' ''ip2'' 0,
      JoinRoom ''a'' (Some (JoinData (Some ''lobby'') (Some ''alice''))) 1]"

text \<open>
  A socket whose id is a cleaned string, in LOBBY as BOB, a second socket that has
  joined the room of that name, and a third socket in no room.
\<close>

definition st_alias :: server where
  "st_alias = run init
     [Connection ''K7Q2ZD9RTLM3XWAAAAAB'' ''ip1'' 0, Connection ''x'' ''ip2'' 0,
      Connection ''y'' ''ip3'' 0,
      JoinRoom ''K7Q2ZD9RTLM3XWAAAAAB'' (Some (JoinData (Some ''lobby'') (Some ''bob''))) 1,
      JoinRoom ''x'' (Some (JoinData (Some ''k7q2zd9rtlm3xwaaaaab'') (Some ''eve''))) 2]"

text \<open>A socket that joins R1 and then R2.\<close>

definition st_second_join :: server where
  "st_second_join = run init
     [Connection ''a'' ''ip'' 0,
      JoinRoom ''a'' (Some (JoinData (Some ''r1'') (Some ''al''))) 1,
      JoinRoom ''a'' (Some (JoinData (Some ''r2'') (Some ''al''))) 2]"

text \<open>Two sockets in LOBBY, the second of which then joins OTHER.\<close>

definition st_moved :: server where
  "st_moved = run init
     [Connection ''a'' ''ip1'' 0, Connection ''b'' ''ip2'' 0,
      JoinRoom ''a'' (Some (JoinData (Some ''lobby'') (Some ''alice''))) 1,
      JoinRoom ''b'' (Some (JoinData (Some ''lobby'') (Some ''bob''))) 2,
      JoinRoom ''b'' (Some (JoinData (Some ''other'') (Some ''bob''))) 3]"

section \<open>Properties\<close>

subsection \<open>Normal forms of strings\<close>

lemma upper_char_idem: "upper_char (upper_char c) = upper_char c"
  by (auto simp add: upper_char_def Let_def)

lemma is_space_upper_char: "is_space (upper_char c) = is_space c"
  by (auto simp add: upper_char_def is_space_def Let_def)

lemma toUpperCase_idem: "toUpperCase (toUpperCase s) = toUpperCase s"
  by (simp add: toUpperCase_def upper_char_idem)

lemma trim_toUpperCase: "trim (toUpperCase s) = toUpperCase (trim s)"
  by (simp add: trim_def toUpperCase_def dropWhile_map rev_map comp_def is_space_upper_char)

lemma dropWhile_rev_prefix:
  assumes "dropWhile P xs = xs"
  shows "dropWhile P (rev (dropWhile P (rev xs))) = rev (dropWhile P (rev xs))"
proof (cases "rev (dropWhile P (rev xs))")
  case Nil
  show ?thesis unfolding Nil by simp
next
  case (Cons y ys)
  have "rev xs = takeWhile P (rev xs) @ dropWhile P (rev xs)"
    by simp
  then have "xs = rev (dropWhile P (rev xs)) @ rev (takeWhile P (rev xs))"
    by (metis rev_append rev_rev_ident)
  with Cons have xs: "xs = y # (ys @ rev (takeWhile P (rev xs)))"
    by simp
  have "\<not> P (hd xs)"
    using assms xs by (metis dropWhile_eq_self_iff list.discI)
  with xs have "\<not> P y"
    by (metis list.sel(1))
  with Cons show ?thesis
    by simp
qed

lemma trim_idem: "trim (trim s) = trim s"
proof -
  let ?d = "dropWhile is_space s"
  have d: "dropWhile is_space ?d = ?d"
    by simp
  have "dropWhile is_space (trim s) = trim s"
    unfolding trim_def by (rule dropWhile_rev_prefix [OF d])
  moreover have "dropWhile is_space (rev (trim s)) = rev (trim s)"
    by (simp add: trim_def)
  ultimately show ?thesis
    by (simp add: trim_def)
qed

lemma clean_idem: "clean (clean s) = clean s"
  by (simp add: clean_def trim_toUpperCase toUpperCase_idem trim_idem)

subsection \<open>What each handler changes\<close>

lemma set_userData_simps:
  "activeRooms (set_userData s f st) = activeRooms st"
  "userSockets (set_userData s f st) = userSockets st"
  "userConnections (set_userData s f st) = userConnections st"
  "adapter (set_userData s f st) = adapter st"
  by (simp_all add: set_userData_def split: option.splits)

lemma set_userData_conns:
  "conns (set_userData s f st) =
     (case conns st s of None \<Rightarrow> conns st | Some c \<Rightarrow> (conns st)(s \<mapsto> c\<lparr>userData := f (userData c)\<rparr>))"
  by (simp add: set_userData_def split: option.splits)

lemma on_connection_accept:
  assumes "connection_count st ip < MAX_CONNECTIONS_PER_IP"
  shows "conns (fst (on_connection st s ip now)) =
           (conns st)(s \<mapsto> \<lparr>clientIp = ip, userData = \<lparr>socketId = s, nickname = None,
                 roomCode = None, joinTime = now\<rparr>\<rparr>)"
    and "adapter (fst (on_connection st s ip now)) = (adapter st)(s := insert s (adapter st s))"
    and "userSockets (fst (on_connection st s ip now)) =
           (if s \<in> set (userSockets st) then userSockets st else userSockets st @ [s])"
    and "userConnections (fst (on_connection st s ip now)) =
           (userConnections st)(ip \<mapsto> connection_count st ip + 1)"
    and "activeRooms (fst (on_connection st s ip now)) = activeRooms st"
    and "snd (on_connection st s ip now) = []"
  using assms by (auto simp add: on_connection_def Let_def socket_join_def connection_count_def)

lemma on_connection_reject:
  assumes "connection_count st ip \<ge> MAX_CONNECTIONS_PER_IP"
  shows "conns (fst (on_connection st s ip now)) = conns st"
    and "adapter (fst (on_connection st s ip now)) r = adapter st r - {s}"
    and "userSockets (fst (on_connection st s ip now)) = userSockets st"
    and "userConnections (fst (on_connection st s ip now)) = userConnections st"
    and "activeRooms (fst (on_connection st s ip now)) = activeRooms st"
    and "snd (on_connection st s ip now) =
           [socket_emit s (ErrorEv ''Too many connections from this IP'')]"
  using assms by (auto simp add: on_connection_def Let_def socket_join_def leave_all_def connection_count_def)

lemma join_room_frame:
  "userSockets (fst (join_room st s d now)) = userSockets st"
  "userConnections (fst (join_room st s d now)) = userConnections st"
  by (auto simp add: join_room_def Let_def socket_join_def set_userData_simps
      split: option.splits join_data.splits)

lemma join_room_effect:
  assumes "conns st s = Some c"
  shows "conns (fst (join_room st s d now)) = conns st \<and>
         adapter (fst (join_room st s d now)) = adapter st \<or>
         (\<exists>r n. conns (fst (join_room st s d now)) =
            (conns st)(s \<mapsto> c\<lparr>userData := (userData c)\<lparr>nickname := Some (clean n),
               roomCode := Some (clean r)\<rparr>\<rparr>) \<and>
            (adapter (fst (join_room st s d now)) = adapter st \<or>
             adapter (fst (join_room st s d now)) =
               (adapter st)(clean r := insert s (adapter st (clean r)))))"
  using assms
  by (auto simp add: join_room_def Let_def socket_join_def set_userData_simps set_userData_conns
      split: option.splits join_data.splits)

lemma handleUserLeave_frame:
  "userSockets (fst (handleUserLeave st s c now)) = removeAll s (userSockets st)"
  "userConnections (fst (handleUserLeave st s c now)) = userConnections st"
  by (auto simp add: handleUserLeave_def Let_def socket_leave_def set_userData_simps
      split: option.splits prod.splits)

lemma handleUserLeave_adapter:
  "adapter (fst (handleUserLeave st s c now)) = adapter st \<or>
   (\<exists>rc. roomCode (userData c) = Some rc \<and>
      adapter (fst (handleUserLeave st s c now)) = (adapter st)(rc := adapter st rc - {s}))"
  by (cases "roomCode (userData c)")
     (auto simp add: handleUserLeave_def Let_def socket_leave_def set_userData_simps split: option.splits prod.splits)

lemma handleUserLeave_conns:
  "conns st s = Some c \<Longrightarrow> conns (fst (handleUserLeave st s c now)) =
      (conns st)(s \<mapsto> c\<lparr>userData := (userData c)\<lparr>roomCode := None\<rparr>\<rparr>)"
  by (auto simp add: handleUserLeave_def Let_def socket_leave_def set_userData_conns split: option.splits prod.splits)

lemma disconnect_adapter:
  "adapter (fst (disconnect st s c now)) r = adapter st r - {s}"
  using handleUserLeave_adapter [of "leave_all s st" s c now]
  by (auto simp add: disconnect_def Let_def leave_all_def split: prod.splits if_splits)

lemma disconnect_conns:
  "conns st s = Some c \<Longrightarrow> conns (fst (disconnect st s c now)) = (conns st)(s := None)"
  using handleUserLeave_conns [of "leave_all s st" s c now]
  by (auto simp add: disconnect_def Let_def leave_all_def split: prod.splits)

lemma disconnect_frame:
  "userSockets (fst (disconnect st s c now)) = removeAll s (userSockets st)"
  "userConnections (fst (disconnect st s c now)) =
     (let n = (case userConnections st (clientIp c) of None \<Rightarrow> 1 | Some n \<Rightarrow> if n = 0 then 1 else n)
      in if n \<le> 1 then (userConnections st)(clientIp c := None)
         else (userConnections st)(clientIp c \<mapsto> n - 1))"
  using handleUserLeave_frame [of "leave_all s st" s c now]
  by (auto simp add: disconnect_def Let_def leave_all_def split: prod.splits)

lemma chat_message_frame:
  "conns (fst (chat_message st s c d now gid)) = conns st"
  "adapter (fst (chat_message st s c d now gid)) = adapter st"
  "userSockets (fst (chat_message st s c d now gid)) = userSockets st"
  "userConnections (fst (chat_message st s c d now gid)) = userConnections st"
  by (auto simp add: chat_message_def split: option.splits chat_data.splits)

lemma webrtc_signal_state: "fst (webrtc_signal st s c d) = st"
  by (auto simp add: webrtc_signal_def split: option.splits signal_data.splits)

lemma private_chat_invite_state: "fst (private_chat_invite st s d) = st"
  by (auto simp add: private_chat_invite_def split: option.splits invite_data.splits)

lemma cleanup_frame:
  "conns (cleanupInactiveRooms st now) = conns st"
  "adapter (cleanupInactiveRooms st now) = adapter st"
  "userSockets (cleanupInactiveRooms st now) = userSockets st"
  "userConnections (cleanupInactiveRooms st now) = userConnections st"
  by (simp_all add: cleanupInactiveRooms_def)

text \<open>What one event does to the sockets, the registry, the counters and the transport.\<close>

lemma handle_effect [consumes 0, case_names same accept reject join leave disconnect]:
  fixes st ev
  defines "st' \<equiv> fst (handle st ev)"
  obtains
    (same) "conns st' = conns st" "adapter st' = adapter st"
      "userSockets st' = userSockets st" "userConnections st' = userConnections st"
      "\<And>s now. ev \<noteq> Disconnect s now \<or> conns st s = None"
  | (accept) s ip now where "ev = Connection s ip now" "s \<noteq> []" "conns st s = None"
      "connection_count st ip < MAX_CONNECTIONS_PER_IP"
      "conns st' = (conns st)(s \<mapsto> \<lparr>clientIp = ip, userData = \<lparr>socketId = s, nickname = None,
                 roomCode = None, joinTime = now\<rparr>\<rparr>)"
      "adapter st' = (adapter st)(s := insert s (adapter st s))"
      "userSockets st' = (if s \<in> set (userSockets st) then userSockets st else userSockets st @ [s])"
      "userConnections st' =
         (userConnections st)(ip \<mapsto> connection_count st ip + 1)"
  | (reject) s ip now where "ev = Connection s ip now" "s \<noteq> []" "conns st s = None"
      "connection_count st ip \<ge> MAX_CONNECTIONS_PER_IP"
      "conns st' = conns st" "\<And>r. adapter st' r = adapter st r - {s}"
      "userSockets st' = userSockets st" "userConnections st' = userConnections st"
  | (join) s d now c r n where "ev = JoinRoom s d now" "conns st s = Some c"
      "conns st' = (conns st)(s \<mapsto> c\<lparr>userData := (userData c)\<lparr>nickname := Some (clean n),
               roomCode := Some (clean r)\<rparr>\<rparr>)"
      "adapter st' = adapter st \<or>
       adapter st' = (adapter st)(clean r := insert s (adapter st (clean r)))"
      "userSockets st' = userSockets st" "userConnections st' = userConnections st"
  | (leave) s now c where "ev = LeaveRoom s now" "conns st s = Some c"
      "conns st' = (conns st)(s \<mapsto> c\<lparr>userData := (userData c)\<lparr>roomCode := None\<rparr>\<rparr>)"
      "adapter st' = adapter st \<or>
       (\<exists>rc. roomCode (userData c) = Some rc \<and>
          adapter st' = (adapter st)(rc := adapter st rc - {s}))"
      "userSockets st' = removeAll s (userSockets st)" "userConnections st' = userConnections st"
  | (disconnect) s now c where "ev = Disconnect s now" "conns st s = Some c"
      "conns st' = (conns st)(s := None)" "\<And>r. adapter st' r = adapter st r - {s}"
      "userSockets st' = removeAll s (userSockets st)"
      "userConnections st' =
         (let n = (case userConnections st (clientIp c) of None \<Rightarrow> 1 | Some n \<Rightarrow> if n = 0 then 1 else n)
          in if n \<le> 1 then (userConnections st)(clientIp c := None)
             else (userConnections st)(clientIp c \<mapsto> n - 1))"
proof (cases ev)
  case (Connection s ip now)
  show ?thesis
  proof (cases "s = [] \<or> s \<in> dom (conns st)")
    case True
    with Connection show ?thesis by (intro same) (auto simp add: st'_def)
  next
    case False
    then have f: "s \<noteq> []" "conns st s = None" by auto
    show ?thesis
    proof (cases "connection_count st ip < MAX_CONNECTIONS_PER_IP")
      case True
      with Connection f on_connection_accept [OF True, of s now] show ?thesis
        by (intro accept [of s ip now]) (auto simp add: st'_def)
    next
      case False
      then have ge: "connection_count st ip \<ge> MAX_CONNECTIONS_PER_IP"
        by simp
      with Connection f on_connection_reject [OF ge, of s now] show ?thesis
        by (intro reject [of s ip now]) (auto simp add: st'_def)
    qed
  qed
next
  case (JoinRoom s d now)
  show ?thesis
  proof (cases "conns st s")
    case None
    with JoinRoom show ?thesis by (intro same) (auto simp add: st'_def)
  next
    case (Some c)
    from join_room_effect [OF Some, of d now] show ?thesis
    proof (elim disjE exE conjE)
      assume "conns (fst (join_room st s d now)) = conns st"
        "adapter (fst (join_room st s d now)) = adapter st"
      with JoinRoom Some show ?thesis
        by (intro same) (auto simp add: st'_def join_room_frame)
    next
      fix r n
      assume "conns (fst (join_room st s d now)) =
            (conns st)(s \<mapsto> c\<lparr>userData := (userData c)\<lparr>nickname := Some (clean n),
               roomCode := Some (clean r)\<rparr>\<rparr>)"
        "adapter (fst (join_room st s d now)) = adapter st"
      with JoinRoom Some show ?thesis
        by (intro join [of s d now c r n]) (auto simp add: st'_def join_room_frame)
    next
      fix r n
      assume "conns (fst (join_room st s d now)) =
            (conns st)(s \<mapsto> c\<lparr>userData := (userData c)\<lparr>nickname := Some (clean n),
               roomCode := Some (clean r)\<rparr>\<rparr>)"
        "adapter (fst (join_room st s d now)) =
               (adapter st)(clean r := insert s (adapter st (clean r)))"
      with JoinRoom Some show ?thesis
        by (intro join [of s d now c r n]) (auto simp add: st'_def join_room_frame)
    qed
  qed
next
  case (LeaveRoom s now)
  show ?thesis
  proof (cases "conns st s")
    case None
    with LeaveRoom show ?thesis by (intro same) (auto simp add: st'_def)
  next
    case (Some c)
    with LeaveRoom handleUserLeave_adapter [of st s c now] handleUserLeave_conns [OF Some, of now]
    show ?thesis
      by (intro leave [of s now c]) (auto simp add: st'_def handleUserLeave_frame)
  qed
next
  case (Disconnect s now)
  show ?thesis
  proof (cases "conns st s")
    case None
    with Disconnect show ?thesis by (intro same) (auto simp add: st'_def)
  next
    case (Some c)
    with Disconnect disconnect_conns [OF Some, of now] show ?thesis
      by (intro disconnect [of s now c])
         (auto simp add: st'_def disconnect_frame disconnect_adapter)
  qed
next
  case (WebrtcSignal s d)
  then show ?thesis
    by (intro same) (auto simp add: st'_def webrtc_signal_state split: option.splits)
next
  case (ChatMessage s d now gid)
  then show ?thesis
    by (intro same) (auto simp add: st'_def chat_message_frame split: option.splits)
next
  case (PrivateChatInvite s d)
  then show ?thesis
    by (intro same) (auto simp add: st'_def private_chat_invite_state split: option.splits)
next
  case (CleanupTick now)
  then show ?thesis
    by (intro same) (auto simp add: st'_def cleanup_frame)
qed

subsection \<open>Invariants of the transport and the registry\<close>

lemma transport_ok_init: "transport_ok init"
  by (simp add: transport_ok_def init_def)

lemma transport_ok_step:
  assumes "transport_ok st"
  shows "transport_ok (fst (handle st ev))"
proof (cases rule: handle_effect [of st ev])
  case same
  with assms show ?thesis by (simp add: transport_ok_def)
next
  case (accept s ip now)
  with assms show ?thesis unfolding transport_ok_def by (auto split: if_splits)
next
  case (reject s ip now)
  with assms show ?thesis unfolding transport_ok_def by auto
next
  case (join s d now c r n)
  with assms show ?thesis unfolding transport_ok_def
    by (auto simp add: clean_idem split: if_splits; blast)
next
  case (leave s now c)
  with assms show ?thesis unfolding transport_ok_def
    by (auto split: if_splits; blast)
next
  case (disconnect s now c)
  with assms show ?thesis unfolding transport_ok_def
    by (auto split: if_splits; blast)
qed

lemma reachable_transport_ok: "reachable st \<Longrightarrow> transport_ok st"
  by (induction rule: reachable.induct) (auto intro: transport_ok_init transport_ok_step)

lemma reachable_run: "reachable st \<Longrightarrow> reachable (run st evs)"
  by (induction evs arbitrary: st) (auto intro: reachable.step)

subsection \<open>Chat relay\<close>

text \<open>
  C9. The \<^verbatim>\<open>roomCode\<close> of a \<^verbatim>\<open>chat-message\<close> is compared with the session's stored
  room code as it is, with no trimming and no change of case: whenever the two differ,
  nothing is emitted and the state stays as it was, also when the sender is a member of
  the room the supplied code would normalize to.
\<close>

theorem C9_chat_room_code_verbatim:
  assumes "conns st s = Some c" and "roomCode (userData c) = Some rc" and "rc' \<noteq> Some rc"
  shows "handle st (ChatMessage s (Some (ChatData message rc')) now gid) = (st, [])"
  using assms by (auto simp add: chat_message_def)

theorem C9_chat_room_code_verbatim_witness:
  "session_room st_lobby ''a'' = Some ''LOBBY'' \<and> clean '' lobby'' = ''LOBBY'' \<and>
   map_option (map fst \<circ> users) (activeRooms st_lobby ''LOBBY'') = Some [''a''] \<and>
   handle st_lobby (ChatMessage ''a'' (Some (ChatData (Some ''hi'') (Some '' lobby''))) 2 ''m1'')
     = (st_lobby, [])"
proof -
  have c: "conns st_lobby ''a'' =
      Some \<lparr>clientIp = ''ip'', userData = \<lparr>socketId = ''a'', nickname = Some ''ALICE'',
              roomCode = Some ''LOBBY'', joinTime = 0\<rparr>\<rparr>"
    by code_simp
  have r: "roomCode (userData \<lparr>clientIp = ''ip'', userData = \<lparr>socketId = ''a'',
      nickname = Some ''ALICE'', roomCode = Some ''LOBBY'', joinTime = 0\<rparr>\<rparr>) = Some ''LOBBY''"
    by simp
  have n: "Some '' lobby'' \<noteq> Some ''LOBBY''"
    by simp
  have a: "session_room st_lobby ''a'' = Some ''LOBBY''"
    by code_simp
  have b: "clean '' lobby'' = ''LOBBY''"
    by code_simp
  have m: "map_option (map fst \<circ> users) (activeRooms st_lobby ''LOBBY'') = Some [''a'']"
    by code_simp
  from a b m C9_chat_room_code_verbatim [OF c r n] show ?thesis
    by simp
qed

subsection \<open>Admission\<close>

lemma no_handlers:
  "handler_socket ev = Some s \<Longrightarrow> conns st s = None \<Longrightarrow> handle st ev = (st, [])"
  by (cases ev) auto

lemma reject_state:
  assumes "transport_ok st" and "conns st s = None"
    and "MAX_CONNECTIONS_PER_IP \<le> connection_count st ip"
  shows "on_connection st s ip now =
           (st, [socket_emit s (ErrorEv ''Too many connections from this IP'')])"
proof -
  have "s \<notin> adapter st r" for r
    using assms(1,2) by (fastforce simp add: transport_ok_def)
  then have "((adapter st)(s := insert s (adapter st s))) r - {s} = adapter st r" for r
    by auto
  then have "(\<lambda>r. ((adapter st)(s := insert s (adapter st s))) r - {s}) = adapter st"
    by (rule ext)
  with assms(3) show ?thesis
    by (simp add: on_connection_def Let_def socket_join_def leave_all_def connection_count_def)
qed

text \<open>
  C10. A connection attempt that the admission guard rejects changes nothing: the state
  after it is the state before it (no counter incremented, no session in the registry),
  the only emission is the \<^verbatim>\<open>error\<close> event to the rejected socket, and since no handler
  was registered for that socket, none of its later events, its disconnect included,
  changes the state or emits anything.
\<close>

theorem C10_rejection_changes_nothing:
  assumes "reachable st" and "s \<noteq> []" and "conns st s = None"
    and "MAX_CONNECTIONS_PER_IP \<le> connection_count st ip"
  shows "handle st (Connection s ip now) =
           (st, [socket_emit s (ErrorEv ''Too many connections from this IP'')]) \<and>
         (\<forall>ev. handler_socket ev = Some s \<longrightarrow> handle st ev = (st, []))"
  using assms reject_state [OF reachable_transport_ok [OF assms(1)] assms(3,4)]
  by (auto simp add: no_handlers)

lemma reachable_st_full: "reachable st_full"
  unfolding st_full_def by (rule reachable_run [OF reachable.start])

theorem C10_rejection_changes_nothing_witness:
  "connection_count st_full ''ip'' = 10 \<and>
   handle st_full (Connection ''x'' ''ip'' 5) =
     (st_full, [socket_emit ''x'' (ErrorEv ''Too many connections from this IP'')]) \<and>
   handle st_full (Disconnect ''x'' 6) = (st_full, [])"
proof -
  have n: "connection_count st_full ''ip'' = 10"
    by code_simp
  have f: "conns st_full ''x'' = None"
    by code_simp
  have m: "MAX_CONNECTIONS_PER_IP \<le> connection_count st_full ''ip''"
    by code_simp
  have x: "''x'' \<noteq> []"
    by simp
  note t = C10_rejection_changes_nothing [OF reachable_st_full x f m, of 5]
  from t have a: "handle st_full (Connection ''x'' ''ip'' 5) =
      (st_full, [socket_emit ''x'' (ErrorEv ''Too many connections from this IP'')])"
    by (rule conjunct1)
  from t have "handler_socket (Disconnect ''x'' 6) = Some ''x'' \<longrightarrow>
      handle st_full (Disconnect ''x'' 6) = (st_full, [])"
    by blast
  then have b: "handle st_full (Disconnect ''x'' 6) = (st_full, [])"
    by (simp del: handle.simps)
  from n a b show ?thesis
    by blast
qed

subsection \<open>The connection counters\<close>

lemma open_connections_finite: "finite (dom (conns st)) \<Longrightarrow> finite (open_connections st ip)"
  by (rule finite_subset [of _ "dom (conns st)"]) (auto simp add: open_connections_def)

lemma open_connections_new:
  assumes "conns st s = None" and "conns st' = (conns st)(s \<mapsto> c)"
  shows "open_connections st' ip =
           (if clientIp c = ip then insert s (open_connections st ip) else open_connections st ip)"
  using assms by (auto simp add: open_connections_def)

lemma open_connections_upd:
  assumes "conns st s = Some c" and "conns st' = (conns st)(s \<mapsto> c\<lparr>userData := u\<rparr>)"
  shows "open_connections st' ip = open_connections st ip"
  using assms by (auto simp add: open_connections_def)

lemma open_connections_del:
  assumes "conns st' = (conns st)(s := None)"
  shows "open_connections st' ip = open_connections st ip - {s}"
  using assms by (auto simp add: open_connections_def)

lemma open_connections_same:
  assumes "conns st' = conns st"
  shows "open_connections st' ip = open_connections st ip"
  using assms by (simp add: open_connections_def)

lemma counters_ok_init: "counters_ok init"
  by (simp add: counters_ok_def init_def open_connections_def connection_count_def)

lemma counters_ok_step:
  assumes "counters_ok st"
  shows "counters_ok (fst (handle st ev))"
proof (cases rule: handle_effect [of st ev])
  case same
  with assms open_connections_same [OF same(1)] show ?thesis
    by (simp add: counters_ok_def connection_count_def)
next
  case (accept s ip now)
  have fin: "finite (open_connections st ip')" for ip'
    using assms by (simp add: counters_ok_def open_connections_finite)
  have notin: "s \<notin> open_connections st ip'" for ip'
    using accept(3) by (simp add: open_connections_def)
  from assms accept open_connections_new [OF accept(3) accept(5)] fin notin show ?thesis
    by (auto simp add: counters_ok_def connection_count_def)
next
  case (reject s ip now)
  with assms open_connections_same [OF reject(5)] show ?thesis
    by (simp add: counters_ok_def connection_count_def)
next
  case (join s d now c r n)
  with assms open_connections_upd [OF join(2) join(3)] show ?thesis
    by (simp add: counters_ok_def connection_count_def)
next
  case (leave s now c)
  with assms open_connections_upd [OF leave(2) leave(3)] show ?thesis
    by (simp add: counters_ok_def connection_count_def)
next
  case (disconnect s now c)
  let ?ip = "clientIp c" and ?st' = "fst (handle st ev)"
  have fin: "finite (open_connections st ip')" for ip'
    using assms by (simp add: counters_ok_def open_connections_finite)
  have mem: "s \<in> open_connections st ?ip"
    using disconnect(2) by (simp add: open_connections_def)
  have other: "ip' \<noteq> ?ip \<Longrightarrow> s \<notin> open_connections st ip'" for ip'
    using disconnect(2) by (auto simp add: open_connections_def)
  have pos: "0 < card (open_connections st ?ip)"
    using fin mem by (auto simp add: card_gt_0_iff)
  from assms have inv: "userConnections st ip' \<noteq> Some 0"
      "connection_count st ip' = card (open_connections st ip')" for ip'
    by (simp_all add: counters_ok_def)
  from inv(2) [of ?ip] pos obtain n where n: "userConnections st ?ip = Some n"
      "n = card (open_connections st ?ip)" "0 < n"
    by (auto simp add: connection_count_def split: option.splits)
  have opn: "open_connections ?st' ip' = open_connections st ip' - {s}" for ip'
    by (rule open_connections_del [OF disconnect(3)])
  have uc: "userConnections ?st' =
      (if n \<le> 1 then (userConnections st)(?ip := None) else (userConnections st)(?ip \<mapsto> n - 1))"
    using disconnect(6) n by (simp add: Let_def)
  have "userConnections ?st' ip' \<noteq> Some 0 \<and>
        connection_count ?st' ip' = card (open_connections ?st' ip')" for ip'
  proof (cases "ip' = ?ip")
    case True
    with uc n opn [of ?ip] fin mem show ?thesis
      by (auto simp add: connection_count_def)
  next
    case False
    with uc opn [of ip'] other [of ip'] inv [of ip'] show ?thesis
      by (auto simp add: connection_count_def)
  qed
  moreover have "finite (dom (conns ?st'))"
    using assms disconnect(3) by (simp add: counters_ok_def)
  ultimately show ?thesis
    by (simp add: counters_ok_def)
qed

lemma reachable_counters_ok: "reachable st \<Longrightarrow> counters_ok st"
  by (induction rule: reachable.induct) (auto intro: counters_ok_init counters_ok_step)

lemma admission_decision:
  assumes "s \<noteq> []" and "conns st s = None"
  shows "conns (fst (handle st (Connection s ip now))) s \<noteq> None \<longleftrightarrow>
           connection_count st ip < MAX_CONNECTIONS_PER_IP"
    and "snd (handle st (Connection s ip now)) =
           [socket_emit s (ErrorEv ''Too many connections from this IP'')] \<longleftrightarrow>
         MAX_CONNECTIONS_PER_IP \<le> connection_count st ip"
proof -
  show "conns (fst (handle st (Connection s ip now))) s \<noteq> None \<longleftrightarrow>
           connection_count st ip < MAX_CONNECTIONS_PER_IP"
  proof (cases "connection_count st ip < MAX_CONNECTIONS_PER_IP")
    case True
    with assms on_connection_accept(1) [OF True, of s now] show ?thesis
      by (simp add: domIff)
  next
    case False
    then have "MAX_CONNECTIONS_PER_IP \<le> connection_count st ip" by simp
    with assms on_connection_reject(1) [OF this, of s now] False show ?thesis
      by (simp add: domIff)
  qed
  show "snd (handle st (Connection s ip now)) =
           [socket_emit s (ErrorEv ''Too many connections from this IP'')] \<longleftrightarrow>
         MAX_CONNECTIONS_PER_IP \<le> connection_count st ip"
  proof (cases "connection_count st ip < MAX_CONNECTIONS_PER_IP")
    case True
    with assms on_connection_accept(6) [OF True, of s now] show ?thesis
      by (simp add: domIff)
  next
    case False
    then have "MAX_CONNECTIONS_PER_IP \<le> connection_count st ip" by simp
    with assms on_connection_reject(6) [OF this, of s now] show ?thesis
      by (simp add: domIff)
  qed
qed

lemma counter_zero:
  assumes "counters_ok st" and "connection_count st ip = 0"
  shows "userConnections st ip = None"
proof -
  from assms(1) have "userConnections st ip \<noteq> Some 0"
    by (simp add: counters_ok_def)
  with assms(2) show ?thesis
    by (cases "userConnections st ip") (simp_all add: connection_count_def)
qed

lemma disconnect_counter:
  assumes "reachable st" and "conns st d = Some c"
  shows "connection_count (fst (handle st (Disconnect d now))) (clientIp c) =
           connection_count st (clientIp c) - 1"
    and "0 < connection_count st (clientIp c)"
    and "connection_count st (clientIp c) = 1 \<Longrightarrow>
           userConnections (fst (handle st (Disconnect d now))) (clientIp c) = None"
proof -
  let ?st' = "fst (handle st (Disconnect d now))" and ?ip = "clientIp c"
  have ok: "counters_ok st"
    by (rule reachable_counters_ok [OF assms(1)])
  have ok': "counters_ok ?st'"
    by (rule reachable_counters_ok [OF reachable.step [OF assms(1)]])
  have conns': "conns ?st' = (conns st)(d := None)"
    using assms(2) by (simp add: disconnect_conns)
  have fin: "finite (open_connections st ?ip)"
    using ok by (simp add: counters_ok_def open_connections_finite)
  have mem: "d \<in> open_connections st ?ip"
    using assms(2) by (simp add: open_connections_def)
  have "connection_count ?st' ?ip = card (open_connections st ?ip - {d})"
    using ok' open_connections_del [OF conns', of ?ip] by (simp add: counters_ok_def)
  also have "\<dots> = card (open_connections st ?ip) - 1"
    using fin mem by simp
  finally show c: "connection_count ?st' ?ip = connection_count st ?ip - 1"
    using ok by (simp add: counters_ok_def)
  show "0 < connection_count st ?ip"
    using ok fin mem by (auto simp add: counters_ok_def card_gt_0_iff)
  assume "connection_count st ?ip = 1"
  with c have "connection_count ?st' ?ip = 0"
    by simp
  with ok' show "userConnections ?st' ?ip = None"
    by (rule counter_zero)
qed

text \<open>
  C5. In every reachable state the counter of an address is the number of its open
  connections, and a connection attempt from the address is rejected exactly when that
  number is at least 10. So with 10 connections open the next attempt is rejected; the
  disconnect of any one of them takes the counter down by one (and takes the entry
  away when it was 1), and after it a new attempt from the address is accepted.
\<close>

theorem C5_admission_limit:
  assumes "reachable st" and "s \<noteq> []" and "conns st s = None"
  shows "connection_count st ip = card (open_connections st ip) \<and>
         (snd (handle st (Connection s ip now)) =
            [socket_emit s (ErrorEv ''Too many connections from this IP'')] \<longleftrightarrow>
          10 \<le> card (open_connections st ip)) \<and>
         (conns (fst (handle st (Connection s ip now))) s \<noteq> None \<longleftrightarrow>
          card (open_connections st ip) < 10) \<and>
         (\<forall>d c now' now''. conns st d = Some c \<and> clientIp c = ip \<longrightarrow>
            connection_count (fst (handle st (Disconnect d now'))) ip =
              connection_count st ip - 1 \<and>
            (connection_count st ip = 1 \<longrightarrow>
               userConnections (fst (handle st (Disconnect d now'))) ip = None) \<and>
            (card (open_connections st ip) = 10 \<longrightarrow>
               conns (fst (handle (fst (handle st (Disconnect d now')))
                        (Connection s ip now''))) s \<noteq> None))"
proof -
  have cnt: "connection_count st ip = card (open_connections st ip)"
    using reachable_counters_ok [OF assms(1)] by (simp add: counters_ok_def)
  have later: "conns (fst (handle (fst (handle st (Disconnect d now')))
                        (Connection s ip now''))) s \<noteq> None"
    if d: "conns st d = Some c" "clientIp c = ip" and full: "card (open_connections st ip) = 10"
    for d c now' now''
  proof -
    let ?st' = "fst (handle st (Disconnect d now'))"
    have "conns ?st' s = None"
      using d(1) assms(3) by (simp add: disconnect_conns)
    moreover have "connection_count ?st' ip < MAX_CONNECTIONS_PER_IP"
      using disconnect_counter(1) [OF assms(1) d(1), of now'] d(2) cnt full
      by (simp add: MAX_CONNECTIONS_PER_IP_def)
    ultimately show ?thesis
      using admission_decision(1) [OF assms(2), of ?st' ip now''] by blast
  qed
  show ?thesis
    using cnt admission_decision [OF assms(2,3), of ip now]
      disconnect_counter(1,3) [OF assms(1)] later
    by (auto simp add: MAX_CONNECTIONS_PER_IP_def simp del: handle.simps)
qed

theorem C5_admission_limit_witness:
  "card (open_connections st_full ''ip'') = 10 \<and>
   snd (handle st_full (Connection ''x'' ''ip'' 5)) =
     [socket_emit ''x'' (ErrorEv ''Too many connections from this IP'')] \<and>
   connection_count (fst (handle st_full (Disconnect ''c3'' 6))) ''ip'' = 9 \<and>
   conns (fst (handle (fst (handle st_full (Disconnect ''c3'' 6))) (Connection ''x'' ''ip'' 7))) ''x''
     \<noteq> None"
proof -
  have n: "connection_count st_full ''ip'' = 10"
    by code_simp
  have f: "conns st_full ''x'' = None"
    by code_simp
  have x: "''x'' \<noteq> []"
    by simp
  have c: "conns st_full ''c3'' = Some \<lparr>clientIp = ''ip'', userData = \<lparr>socketId = ''c3'',
      nickname = None, roomCode = None, joinTime = 0\<rparr>\<rparr>"
    by code_simp
  note t = C5_admission_limit [OF reachable_st_full x f, of "''ip''" 5]
  from t n have card: "card (open_connections st_full ''ip'') = 10"
    by simp
  from t card have rej: "snd (handle st_full (Connection ''x'' ''ip'' 5)) =
     [socket_emit ''x'' (ErrorEv ''Too many connections from this IP'')]"
    by simp
  from t have "conns st_full ''c3'' = Some \<lparr>clientIp = ''ip'', userData = \<lparr>socketId = ''c3'',
      nickname = None, roomCode = None, joinTime = 0\<rparr>\<rparr> \<and>
      clientIp \<lparr>clientIp = ''ip'', userData = \<lparr>socketId = ''c3'',
      nickname = None, roomCode = None, joinTime = 0\<rparr>\<rparr> = ''ip'' \<longrightarrow>
        connection_count (fst (handle st_full (Disconnect ''c3'' 6))) ''ip'' =
              connection_count st_full ''ip'' - 1 \<and>
            (connection_count st_full ''ip'' = 1 \<longrightarrow>
               userConnections (fst (handle st_full (Disconnect ''c3'' 6))) ''ip'' = None) \<and>
            (card (open_connections st_full ''ip'') = 10 \<longrightarrow>
               conns (fst (handle (fst (handle st_full (Disconnect ''c3'' 6)))
                        (Connection ''x'' ''ip'' 7))) ''x'' \<noteq> None)"
    by blast
  with c n card have "connection_count (fst (handle st_full (Disconnect ''c3'' 6))) ''ip'' = 9 \<and>
     conns (fst (handle (fst (handle st_full (Disconnect ''c3'' 6))) (Connection ''x'' ''ip'' 7))) ''x''
     \<noteq> None"
    by (simp del: handle.simps)
  with card rej show ?thesis
    by blast
qed

subsection \<open>Rooms and joining\<close>

lemma join_invalid:
  assumes "join_request d = None"
  shows "\<exists>msg. join_room st s d now = (st, [socket_emit s (JoinErrorEv msg)])"
  using assms
  by (auto simp add: join_request_def join_room_def split: option.splits join_data.splits if_splits)

lemma join_taken:
  assumes "join_request d = Some (rc, nick)" and "nickname_taken st s rc nick"
  shows "join_room st s d now =
           (set_userData s (\<lambda>u. u\<lparr>nickname := Some nick, roomCode := Some rc\<rparr>) st,
            [socket_emit s (JoinErrorEv ''Nickname already taken in this room'')])"
proof -
  from assms(2) obtain r where r: "activeRooms st rc = Some r"
      "\<exists>(userId, user) \<in> set (users r). m_nickname user = nick \<and> userId \<noteq> s"
    by (auto simp add: nickname_taken_def split: option.splits)
  let ?st1 = "set_userData s (\<lambda>u. u\<lparr>nickname := Some nick, roomCode := Some rc\<rparr>) st"
  have "(activeRooms ?st1)(rc \<mapsto> r) = activeRooms ?st1"
    using r(1) by (auto simp add: set_userData_simps)
  then have "?st1\<lparr>activeRooms := (activeRooms ?st1)(rc \<mapsto> r)\<rparr> = ?st1"
    by simp
  with assms(1) r show ?thesis
    by (auto simp add: join_request_def join_room_def Let_def set_userData_simps
        split: option.splits join_data.splits if_splits)
qed

lemma join_success:
  assumes "join_request d = Some (rc, nick)" and "\<not> nickname_taken st s rc nick"
  shows "join_room st s d now =
     (let room = (case activeRooms st rc of
                    None \<Rightarrow> \<lparr>code = rc, users = [], created = now, lastActivity = now\<rparr>
                  | Some r \<Rightarrow> r);
          users' = AList.update s \<lparr>m_socketId = s, m_nickname = nick, m_joinTime = now\<rparr>
                     (users room);
          st' = socket_join s rc
                  ((set_userData s (\<lambda>u. u\<lparr>nickname := Some nick, roomCode := Some rc\<rparr>) st)
                     \<lparr>activeRooms := (activeRooms st)(rc \<mapsto>
                          room\<lparr>users := users', lastActivity := now\<rparr>)\<rparr>)
      in (st', [socket_emit s (RoomJoinedEv rc nick (length users')),
                io_to st' rc (UsersUpdatedEv (roster (Some s) users') (length users')),
                socket_to st' s rc (UserJoinedEv s nick)]))"
  using assms
  by (auto simp add: join_request_def nickname_taken_def join_room_def Let_def set_userData_simps
      split: option.splits join_data.splits if_splits)

lemma join_room_rooms:
  assumes "activeRooms (fst (join_room st s d now)) k = Some r'"
  shows "(\<exists>r. activeRooms st k = Some r \<and>
            (r' = r \<or>
             (\<exists>m. users r' = AList.update s m (users r) \<and>
                \<not> (\<exists>(k', u) \<in> set (users r). m_nickname u = m_nickname m \<and> k' \<noteq> s)))) \<or>
         (\<exists>m. users r' = [(s, m)])"
proof (cases "join_request d")
  case None
  with join_invalid [OF None, of st s now] assms show ?thesis by auto
next
  case (Some p)
  obtain rc nick where p: "p = (rc, nick)" by (cases p)
  show ?thesis
  proof (cases "nickname_taken st s rc nick")
    case True
    with Some p join_taken [of d rc nick st s now] assms show ?thesis
      by (auto simp add: set_userData_simps)
  next
    case False
    let ?m = "\<lparr>m_socketId = s, m_nickname = nick, m_joinTime = now\<rparr>"
    let ?room = "case activeRooms st rc of
                   None \<Rightarrow> \<lparr>code = rc, users = [], created = now, lastActivity = now\<rparr>
                 | Some r \<Rightarrow> r"
    have ar: "activeRooms (fst (join_room st s d now)) =
        (activeRooms st)(rc \<mapsto> ?room\<lparr>users := AList.update s ?m (users ?room),
           lastActivity := now\<rparr>)"
      using join_success [of d rc nick st s now] Some p False
      by (simp add: Let_def socket_join_def)
    show ?thesis
    proof (cases "k = rc")
      case True
      with assms ar have r': "users r' = AList.update s ?m (users ?room)"
        by auto
      show ?thesis
      proof (cases "activeRooms st rc")
        case None
        with r' show ?thesis by simp
      next
        case (Some r)
        from False Some
        have "\<not> (\<exists>(k', u) \<in> set (users r). m_nickname u = m_nickname ?m \<and> k' \<noteq> s)"
          by (simp add: nickname_taken_def)
        moreover have "users r' = AList.update s ?m (users r)"
          using r' Some by simp
        ultimately have "\<exists>m. users r' = AList.update s m (users r) \<and>
            \<not> (\<exists>(k', u) \<in> set (users r). m_nickname u = m_nickname m \<and> k' \<noteq> s)"
          by blast
        with Some True show ?thesis
          by blast
      qed
    next
      case False
      with assms ar show ?thesis by simp
    qed
  qed
qed

lemma handleUserLeave_rooms:
  assumes "activeRooms (fst (handleUserLeave st s c now)) k = Some r'"
  shows "\<exists>r. activeRooms st k = Some r \<and> (r' = r \<or> users r' = AList.delete s (users r))"
  using assms
  by (auto simp add: handleUserLeave_def Let_def socket_leave_def set_userData_simps
      split: option.splits prod.splits if_splits)

lemma disconnect_rooms:
  assumes "activeRooms (fst (disconnect st s c now)) k = Some r'"
  shows "\<exists>r. activeRooms st k = Some r \<and> (r' = r \<or> users r' = AList.delete s (users r))"
proof -
  have "activeRooms (fst (disconnect st s c now)) =
        activeRooms (fst (handleUserLeave (leave_all s st) s c now))"
    by (auto simp add: disconnect_def Let_def split: prod.splits)
  with assms handleUserLeave_rooms [of "leave_all s st" s c now k r'] show ?thesis
    by (simp add: leave_all_def)
qed

lemma chat_message_rooms:
  assumes "activeRooms (fst (chat_message st s c d now gid)) k = Some r'"
  shows "\<exists>r. activeRooms st k = Some r \<and> users r' = users r"
  using assms
  by (auto simp add: chat_message_def split: option.splits chat_data.splits if_splits)

lemma cleanup_rooms:
  assumes "activeRooms (cleanupInactiveRooms st now) k = Some r'"
  shows "activeRooms st k = Some r'"
  using assms by (auto simp add: cleanupInactiveRooms_def split: option.splits if_splits)

lemma handle_rooms:
  assumes "activeRooms (fst (handle st ev)) k = Some r'"
  shows "(\<exists>r. activeRooms st k = Some r \<and>
            (users r' = users r \<or>
             (\<exists>s. users r' = AList.delete s (users r)) \<or>
             (\<exists>s m. users r' = AList.update s m (users r) \<and>
                \<not> (\<exists>(k', u) \<in> set (users r). m_nickname u = m_nickname m \<and> k' \<noteq> s)))) \<or>
         (\<exists>s m. users r' = [(s, m)])"
proof -
  have same: ?thesis if "activeRooms (fst (handle st ev)) = activeRooms st"
    using that assms by simp
  show ?thesis
  proof (cases ev)
    case (Connection s ip now)
    have "activeRooms (fst (on_connection st s ip now)) = activeRooms st"
      using on_connection_accept(5) [of st ip s now] on_connection_reject(5) [of st ip s now]
      by (cases "connection_count st ip < MAX_CONNECTIONS_PER_IP") simp_all
    with Connection show ?thesis
      by (intro same) simp
  next
    case (JoinRoom s d now)
    show ?thesis
    proof (cases "conns st s")
      case None
      with JoinRoom show ?thesis by (intro same) simp
    next
      case (Some c)
      with JoinRoom assms have "activeRooms (fst (join_room st s d now)) k = Some r'"
        by simp
      from join_room_rooms [OF this] show ?thesis
        by blast
    qed
  next
    case (LeaveRoom s now)
    show ?thesis
    proof (cases "conns st s")
      case None
      with LeaveRoom show ?thesis by (intro same) simp
    next
      case (Some c)
      with LeaveRoom assms have "activeRooms (fst (handleUserLeave st s c now)) k = Some r'"
        by simp
      from handleUserLeave_rooms [OF this] show ?thesis
        by blast
    qed
  next
    case (Disconnect s now)
    show ?thesis
    proof (cases "conns st s")
      case None
      with Disconnect show ?thesis by (intro same) simp
    next
      case (Some c)
      with Disconnect assms have "activeRooms (fst (disconnect st s c now)) k = Some r'"
        by simp
      from disconnect_rooms [OF this] show ?thesis
        by blast
    qed
  next
    case (WebrtcSignal s d)
    then show ?thesis
      by (intro same) (simp add: webrtc_signal_state split: option.splits)
  next
    case (ChatMessage s d now gid)
    show ?thesis
    proof (cases "conns st s")
      case None
      with ChatMessage show ?thesis by (intro same) simp
    next
      case (Some c)
      with ChatMessage assms
      have "activeRooms (fst (chat_message st s c d now gid)) k = Some r'"
        by simp
      from chat_message_rooms [OF this] show ?thesis
        by blast
    qed
  next
    case (PrivateChatInvite s d)
    then show ?thesis
      by (intro same) (simp add: private_chat_invite_state split: option.splits)
  next
    case (CleanupTick now)
    with assms have "activeRooms (cleanupInactiveRooms st now) k = Some r'"
      by simp
    from cleanup_rooms [OF this] show ?thesis
      by simp
  qed
qed

lemma distinct_nick_delete:
  "distinct (map (\<lambda>(k, u). m_nickname u) xs) \<Longrightarrow>
   distinct (map (\<lambda>(k, u). m_nickname u) (AList.delete s xs))"
  by (simp add: AList.delete_eq distinct_map_filter)

lemma nick_update_subset:
  "set (map (\<lambda>(k, u). m_nickname u) (AList.update s m xs)) \<subseteq>
     insert (m_nickname m) (set (map (\<lambda>(k, u). m_nickname u) xs))"
proof (induction xs)
  case Nil
  show ?case by simp
next
  case (Cons x xs)
  obtain k u where x: "x = (k, u)" by (cases x)
  from Cons x show ?case
    by (cases "k = s") auto
qed

lemma distinct_nick_update:
  assumes "distinct (map fst xs)" and "distinct (map (\<lambda>(k, u). m_nickname u) xs)"
    and "\<not> (\<exists>(k', u) \<in> set xs. m_nickname u = m_nickname m \<and> k' \<noteq> s)"
  shows "distinct (map (\<lambda>(k, u). m_nickname u) (AList.update s m xs))"
  using assms
proof (induction xs)
  case Nil
  then show ?case by simp
next
  case (Cons x xs)
  let ?f = "\<lambda>(k, u). m_nickname u"
  obtain k u where x: "x = (k, u)" by (cases x)
  from Cons.prems(1) x have dk: "k \<notin> fst ` set xs" "distinct (map fst xs)"
    by simp_all
  from Cons.prems(2) x have dn: "m_nickname u \<notin> set (map ?f xs)" "distinct (map ?f xs)"
    by simp_all
  from Cons.prems(3) have nc: "\<not> (\<exists>(k', u) \<in> set xs. m_nickname u = m_nickname m \<and> k' \<noteq> s)"
    by simp
  show ?case
  proof (cases "k = s")
    case True
    have "m_nickname m \<notin> set (map ?f xs)"
    proof
      assume "m_nickname m \<in> set (map ?f xs)"
      then obtain k' u' where m: "(k', u') \<in> set xs" "m_nickname u' = m_nickname m"
        by auto
      with nc have "k' = s" by blast
      with m(1) have "s \<in> fst ` set xs" by force
      with dk(1) True show False by simp
    qed
    with dn(2) x True show ?thesis by simp
  next
    case False
    from Cons.prems(3) x False have ne: "m_nickname u \<noteq> m_nickname m"
      by simp
    have ih: "distinct (map ?f (AList.update s m xs))"
      by (rule Cons.IH [OF dk(2) dn(2) nc])
    from dn(1) ne have "m_nickname u \<notin> insert (m_nickname m) (set (map ?f xs))"
      by simp
    with nick_update_subset [of s m xs]
    have "m_nickname u \<notin> set (map ?f (AList.update s m xs))"
      by blast
    with ih x False show ?thesis by simp
  qed
qed

lemma rooms_ok_init: "rooms_ok init"
  by (simp add: rooms_ok_def init_def)

lemma rooms_ok_step:
  assumes "rooms_ok st"
  shows "rooms_ok (fst (handle st ev))"
  unfolding rooms_ok_def
proof (intro allI impI)
  fix k r'
  assume "activeRooms (fst (handle st ev)) k = Some r'"
  from handle_rooms [OF this]
  show "distinct (map fst (users r')) \<and> distinct (map (\<lambda>(k, u). m_nickname u) (users r'))"
  proof (elim disjE exE conjE)
    fix r
    assume "activeRooms st k = Some r" "users r' = users r"
    with assms show ?thesis by (simp add: rooms_ok_def)
  next
    fix r s
    assume "activeRooms st k = Some r" "users r' = AList.delete s (users r)"
    with assms show ?thesis
      by (simp add: rooms_ok_def distinct_delete distinct_nick_delete)
  next
    fix r s m
    assume r: "activeRooms st k = Some r" and u: "users r' = AList.update s m (users r)"
      and n: "\<not> (\<exists>(k', u) \<in> set (users r). m_nickname u = m_nickname m \<and> k' \<noteq> s)"
    from assms r have d: "distinct (map fst (users r))"
        "distinct (map (\<lambda>(k, u). m_nickname u) (users r))"
      by (simp_all add: rooms_ok_def)
    from distinct_nick_update [OF d n] d(1) u show ?thesis
      by (simp add: distinct_update)
  next
    fix s m
    assume "users r' = [(s, m)]"
    then show ?thesis by simp
  qed
qed

lemma reachable_rooms_ok: "reachable st \<Longrightarrow> rooms_ok st"
  by (induction rule: reachable.induct) (auto intro: rooms_ok_init rooms_ok_step)

lemma join_invalid_message:
  assumes "join_request (Some (JoinData a b)) = None"
  shows "join_room st s (Some (JoinData a b)) now =
           (st, [socket_emit s (JoinErrorEv ''Invalid room code or nickname'')])"
  using assms
  by (auto simp add: join_request_def join_room_def split: if_splits)

lemma update_same_pairs:
  assumes "map_of xs s = Some m" and "m_nickname m' = m_nickname m"
  shows "map (\<lambda>(k, u). (k, m_nickname u)) (AList.update s m' xs) =
         map (\<lambda>(k, u). (k, m_nickname u)) xs"
  using assms
proof (induction xs)
  case Nil
  then show ?case by simp
next
  case (Cons x xs)
  obtain k u where x: "x = (k, u)" by (cases x)
  with Cons show ?case
    by (cases "k = s") auto
qed

lemma own_nickname_not_taken:
  assumes "rooms_ok st" and "activeRooms st rc = Some r" and "map_of (users r) s = Some m"
  shows "\<not> nickname_taken st s rc (m_nickname m)"
proof
  assume "nickname_taken st s rc (m_nickname m)"
  with assms(2) obtain k u where ku: "(k, u) \<in> set (users r)" "m_nickname u = m_nickname m"
      "k \<noteq> s"
    by (auto simp add: nickname_taken_def)
  from assms(1,2) have "distinct (map (\<lambda>(k, u). m_nickname u) (users r))"
    by (simp add: rooms_ok_def)
  then have inj: "inj_on (\<lambda>(k, u). m_nickname u) (set (users r))"
    by (simp add: distinct_map)
  from assms(3) have "(s, m) \<in> set (users r)"
    by (rule map_of_SomeD)
  with ku(1,2) have "(k, u) = (s, m)"
    by (intro inj_onD [OF inj]) simp_all
  with ku(3) show False
    by simp
qed

text \<open>
  C7. A socket that has a Member entry in a room and sends \<^verbatim>\<open>join-room\<close> again, with a
  room code and a nickname that normalize to the room's code and to the nickname of its
  entry, does not get the failure "Nickname already taken in this room" (the scan skips
  the socket's own entry, and in a reachable state no other member has that nickname),
  and the room's list of (socket id, nickname) pairs is the same afterwards.
\<close>

theorem C7_rejoin_same_room_same_nickname:
  assumes "reachable st" and "conns st s = Some c"
    and "activeRooms st rc = Some r" and "map_of (users r) s = Some m"
    and "clean roomCode' = rc" and "clean nickname' = m_nickname m"
  shows "JoinErrorEv ''Nickname already taken in this room'' \<notin>
           event ` set (snd (handle st (JoinRoom s (Some (JoinData (Some roomCode')
              (Some nickname'))) now))) \<and>
         (\<exists>r'. activeRooms (fst (handle st (JoinRoom s (Some (JoinData (Some roomCode')
              (Some nickname'))) now))) rc = Some r' \<and>
            map (\<lambda>(k, u). (k, m_nickname u)) (users r') =
            map (\<lambda>(k, u). (k, m_nickname u)) (users r))"
proof -
  let ?d = "Some (JoinData (Some roomCode') (Some nickname'))"
  have h: "handle st (JoinRoom s ?d now) = join_room st s ?d now"
    using assms(2) by simp
  show ?thesis
  proof (cases "join_request ?d")
    case None
    from join_invalid_message [OF None, of st s now] assms(3) show ?thesis
      unfolding h by (simp add: socket_emit_def)
  next
    case (Some p)
    with assms(5,6) have req: "join_request ?d = Some (rc, m_nickname m)"
      by (auto simp add: join_request_def split: if_splits)
    have free: "\<not> nickname_taken st s rc (m_nickname m)"
      by (rule own_nickname_not_taken [OF reachable_rooms_ok [OF assms(1)] assms(3,4)])
    let ?m' = "\<lparr>m_socketId = s, m_nickname = m_nickname m, m_joinTime = now\<rparr>"
    have pairs: "map (\<lambda>(k, u). (k, m_nickname u)) (AList.update s ?m' (users r)) =
        map (\<lambda>(k, u). (k, m_nickname u)) (users r)"
      by (rule update_same_pairs [OF assms(4)]) simp
    from join_success [OF req free, of now] assms(3) pairs show ?thesis
      unfolding h
      by (simp add: Let_def socket_join_def socket_emit_def io_to_def socket_to_def)
  qed
qed

lemma reachable_st_lobby: "reachable st_lobby"
  unfolding st_lobby_def by (rule reachable_run [OF reachable.start])

theorem C7_rejoin_same_room_same_nickname_witness:
  "clean ''lobby '' = ''LOBBY'' \<and> clean '' Alice'' = ''ALICE'' \<and>
   map_option (map (\<lambda>(k, u). (k, m_nickname u)) \<circ> users) (activeRooms st_lobby ''LOBBY'') =
     Some [(''a'', ''ALICE'')] \<and>
   JoinErrorEv ''Nickname already taken in this room'' \<notin>
     event ` set (snd (handle st_lobby (JoinRoom ''a'' (Some (JoinData (Some ''lobby '')
        (Some '' Alice''))) 7))) \<and>
   (\<exists>r'. activeRooms (fst (handle st_lobby (JoinRoom ''a'' (Some (JoinData (Some ''lobby '')
        (Some '' Alice''))) 7))) ''LOBBY'' = Some r' \<and>
      map (\<lambda>(k, u). (k, m_nickname u)) (users r') = [(''a'', ''ALICE'')])"
proof -
  let ?c = "\<lparr>clientIp = ''ip'', userData = \<lparr>socketId = ''a'', nickname = Some ''ALICE'',
              roomCode = Some ''LOBBY'', joinTime = 0\<rparr>\<rparr>"
  let ?m = "\<lparr>m_socketId = ''a'', m_nickname = ''ALICE'', m_joinTime = 1\<rparr>"
  let ?r = "\<lparr>code = ''LOBBY'', users = [(''a'', ?m)], created = 1, lastActivity = 1\<rparr>"
  have c: "conns st_lobby ''a'' = Some ?c"
    by code_simp
  have r: "activeRooms st_lobby ''LOBBY'' = Some ?r"
    by code_simp
  have m: "map_of (users ?r) ''a'' = Some ?m"
    by simp
  have k1: "clean ''lobby '' = ''LOBBY''"
    by code_simp
  have k2: "clean '' Alice'' = m_nickname ?m"
    by code_simp
  note t = C7_rejoin_same_room_same_nickname [OF reachable_st_lobby c r m k1 k2, of 7]
  from t r k1 k2 show ?thesis
    by (simp del: handle.simps)
qed

subsection \<open>Presence emissions\<close>








subsection \<open>Private invitations\<close>

lemma find_target_None:
  "find_target st toUser = None \<longleftrightarrow>
     \<not> (\<exists>k \<in> set (userSockets st). session_nickname st k = toUser)"
  by (auto simp add: find_target_def find_None_iff)

lemma find_target_Some:
  assumes "find_target st toUser = Some t"
  shows "t \<in> set (userSockets st)" and "session_nickname st t = toUser"
  using assms by (auto simp add: find_target_def find_Some_iff)

lemma find_target_first:
  assumes "find_target st toUser = Some t"
  shows "\<exists>i < length (userSockets st). userSockets st ! i = t \<and>
           (\<forall>j < i. session_nickname st (userSockets st ! j) \<noteq> toUser)"
  using assms by (auto simp add: find_target_def find_Some_iff)

lemma io_to_own_room:
  assumes "transport_ok st" and "conns st t \<noteq> None" and "clean t \<noteq> t"
  shows "adapter st t = {t}"
proof -
  from assms have "t \<in> adapter st t"
    by (auto simp add: transport_ok_def)
  moreover have "x = t" if "x \<in> adapter st t" for x
    using that assms(1,3) by (auto simp add: transport_ok_def)
  ultimately show ?thesis
    by auto
qed

text \<open>
  What the \<^verbatim>\<open>private-chat-invite\<close> handler does with non-empty \<^verbatim>\<open>fromUser\<close>,
  \<^verbatim>\<open>toUser\<close> and \<^verbatim>\<open>roomCode\<close>, in every reachable state: it never changes the state;
  it takes the first session of the whole registry, in insertion order, whose nickname is
  equal to \<^verbatim>\<open>toUser\<close> as a string; with none it emits nothing; with one it emits the
  invitation once, \<^verbatim>\<open>io.to\<close> the room named by that socket's id, which holds that
  socket alone whenever the id is not a cleaned string.
\<close>

lemma private_invite_delivery:
  assumes "reachable st" and "conns st s = Some c"
    and "fromUser \<noteq> []" and "toUser \<noteq> []" and "roomCode' \<noteq> []"
  shows "handle st (PrivateChatInvite s
           (Some (InviteData (Some fromUser) (Some toUser) (Some roomCode')))) =
         (st, case find_target st (Some toUser) of
                None \<Rightarrow> []
              | Some t \<Rightarrow> [\<lparr>target = IoTo t, receivers = adapter st t,
                             event = PrivateChatInviteEv fromUser toUser roomCode'\<rparr>]) \<and>
         (find_target st (Some toUser) = None \<longleftrightarrow>
            \<not> (\<exists>k \<in> set (userSockets st). session_nickname st k = Some toUser)) \<and>
         (\<forall>t. find_target st (Some toUser) = Some t \<longrightarrow>
            session_nickname st t = Some toUser \<and>
            (\<exists>i < length (userSockets st). userSockets st ! i = t \<and>
               (\<forall>j < i. session_nickname st (userSockets st ! j) \<noteq> Some toUser)) \<and>
            (clean t \<noteq> t \<longrightarrow> adapter st t = {t}))"
proof -
  have ok: "transport_ok st"
    by (rule reachable_transport_ok [OF assms(1)])
  have live: "conns st t \<noteq> None \<and> t \<noteq> []" if "find_target st (Some toUser) = Some t" for t
  proof -
    from find_target_Some(1) [OF that] ok obtain c' where c': "conns st t = Some c'"
      by (auto simp add: transport_ok_def)
    with ok have "t \<noteq> []"
      unfolding transport_ok_def by blast
    with c' show ?thesis by simp
  qed
  have "handle st (PrivateChatInvite s
           (Some (InviteData (Some fromUser) (Some toUser) (Some roomCode')))) =
         (st, case find_target st (Some toUser) of
                None \<Rightarrow> []
              | Some t \<Rightarrow> [\<lparr>target = IoTo t, receivers = adapter st t,
                             event = PrivateChatInviteEv fromUser toUser roomCode'\<rparr>])"
    using assms(2-5) live
    by (auto simp add: private_chat_invite_def io_to_def split: option.splits)
  moreover have "session_nickname st t = Some toUser \<and>
            (\<exists>i < length (userSockets st). userSockets st ! i = t \<and>
               (\<forall>j < i. session_nickname st (userSockets st ! j) \<noteq> Some toUser)) \<and>
            (clean t \<noteq> t \<longrightarrow> adapter st t = {t})"
    if "find_target st (Some toUser) = Some t" for t
    using find_target_Some(2) [OF that] find_target_first [OF that] live [OF that]
      io_to_own_room [OF ok, of t] by blast
  ultimately show ?thesis
    using find_target_None [of st "Some toUser"] by blast
qed

text \<open>
  C8. An invitation is not always delivered to the found connection only. The handler
  addresses it \<^verbatim>\<open>io.to(targetSocketId)\<close>, the transport's room named by the target's
  id, and a client chooses the names of the rooms it joins: socket x has joined the room
  whose cleaned code is the id of the socket that is BOB, so the invitation that a
  third socket sends to BOB is handed to both sockets.
\<close>

theorem C8_invite_reaches_room_joiner:
  "find_target st_alias (Some ''BOB'') = Some ''K7Q2ZD9RTLM3XWAAAAAB'' \<and>
   session_nickname st_alias ''x'' = Some ''EVE'' \<and>
   session_room st_alias ''x'' = Some ''K7Q2ZD9RTLM3XWAAAAAB'' \<and>
   map target (snd (handle st_alias (PrivateChatInvite ''y''
      (Some (InviteData (Some ''CAROL'') (Some ''BOB'') (Some ''PRIV1'')))))) =
     [IoTo ''K7Q2ZD9RTLM3XWAAAAAB''] \<and>
   map event (snd (handle st_alias (PrivateChatInvite ''y''
      (Some (InviteData (Some ''CAROL'') (Some ''BOB'') (Some ''PRIV1'')))))) =
     [PrivateChatInviteEv ''CAROL'' ''BOB'' ''PRIV1''] \<and>
   map receivers (snd (handle st_alias (PrivateChatInvite ''y''
      (Some (InviteData (Some ''CAROL'') (Some ''BOB'') (Some ''PRIV1'')))))) =
     [{''K7Q2ZD9RTLM3XWAAAAAB'', ''x''}]"
  by code_simp

subsection \<open>Sessions, members and relays out of step\<close>

text \<open>
  A join touches the room of the cleaned code only: the entry of the socket in any other
  room of the directory, and its place in any other room of the transport, stay.
\<close>

lemma join_other_rooms_untouched:
  assumes "join_request d = Some (rc, nick)" and "k \<noteq> rc"
  shows "activeRooms (fst (join_room st s d now)) k = activeRooms st k"
    and "adapter (fst (join_room st s d now)) k = adapter st k"
proof -
  show "activeRooms (fst (join_room st s d now)) k = activeRooms st k"
  proof (cases "nickname_taken st s rc nick")
    case True
    from join_taken [OF assms(1) True, of now] show ?thesis
      by (simp add: set_userData_simps)
  next
    case False
    from join_success [OF assms(1) False, of now] assms(2) show ?thesis
      by (simp add: Let_def socket_join_def)
  qed
  show "adapter (fst (join_room st s d now)) k = adapter st k"
  proof (cases "nickname_taken st s rc nick")
    case True
    from join_taken [OF assms(1) True, of now] show ?thesis
      by (simp add: set_userData_simps)
  next
    case False
    from join_success [OF assms(1) False, of now] assms(2) show ?thesis
      by (simp add: Let_def socket_join_def set_userData_simps)
  qed
qed

text \<open>
  C1. The membership of a room and the sessions that point at the room do not always
  coincide. A socket that joins R1 and then R2 keeps its Member entry in R1 while its
  session points at R2, and the entry outlives the socket: neither its leave nor its
  disconnect removes it.
\<close>

theorem C1_stale_member_after_second_join:
  "session_room st_second_join ''a'' = Some ''R2'' \<and>
   map_option (map fst \<circ> users) (activeRooms st_second_join ''R1'') = Some [''a''] \<and>
   map_option (map fst \<circ> users) (activeRooms st_second_join ''R2'') = Some [''a''] \<and>
   conns (fst (handle st_second_join (Disconnect ''a'' 3))) ''a'' = None \<and>
   map_option (map fst \<circ> users)
     (activeRooms (fst (handle st_second_join (Disconnect ''a'' 3))) ''R1'') = Some [''a'']"
  by code_simp

text \<open>
  A join that fails on a taken nickname leaves the directory,
  the rooms, the registry, the counters and the transport's rooms as they were and emits
  only the failure. What it changes is the session.
\<close>

lemma join_taken_frame:
  assumes "join_request d = Some (rc, nick)" and "nickname_taken st s rc nick"
  shows "activeRooms (fst (join_room st s d now)) = activeRooms st"
    and "userSockets (fst (join_room st s d now)) = userSockets st"
    and "userConnections (fst (join_room st s d now)) = userConnections st"
    and "adapter (fst (join_room st s d now)) = adapter st"
    and "snd (join_room st s d now) =
           [socket_emit s (JoinErrorEv ''Nickname already taken in this room'')]"
  using join_taken [OF assms, of now] by (simp_all add: set_userData_simps)

text \<open>
  C2. A join whose normalized nickname is another socket's in the target room emits the
  failure, and the session's nickname and room field are already overwritten with the
  normalized request: socket b, with no nickname and no room, asks for LOBBY as Alice
  while socket a is ALICE there.
\<close>

theorem C2_collision_overwrites_session:
  "session_nickname st_two ''b'' = None \<and> session_room st_two ''b'' = None \<and>
   snd (handle st_two (JoinRoom ''b'' (Some (JoinData (Some ''Lobby'') (Some ''Alice ''))) 2)) =
     [socket_emit ''b'' (JoinErrorEv ''Nickname already taken in this room'')] \<and>
   session_nickname
     (fst (handle st_two (JoinRoom ''b'' (Some (JoinData (Some ''Lobby'') (Some ''Alice ''))) 2)))
     ''b'' = Some ''ALICE'' \<and>
   session_room
     (fst (handle st_two (JoinRoom ''b'' (Some (JoinData (Some ''Lobby'') (Some ''Alice ''))) 2)))
     ''b'' = Some ''LOBBY'' \<and>
   map_option (map fst \<circ> users)
     (activeRooms
        (fst (handle st_two (JoinRoom ''b'' (Some (JoinData (Some ''Lobby'') (Some ''Alice ''))) 2)))
        ''LOBBY'') = Some [''a'']"
  by code_simp

text \<open>
  A leave of a socket whose session has no room emits nothing and takes the socket out
  of the registry; nothing else changes.
\<close>

lemma leave_without_room:
  assumes "conns st s = Some c" and "falsy (roomCode (userData c))"
  shows "handle st (LeaveRoom s now) =
           (set_userData s (\<lambda>u. u\<lparr>roomCode := None\<rparr>)
              (st\<lparr>userSockets := removeAll s (userSockets st)\<rparr>), [])"
  using assms by (simp add: handleUserLeave_def)

text \<open>
  C3. An explicit \<^verbatim>\<open>leave-room\<close> of a socket whose session has no room is not a no-op:
  \<^verbatim>\<open>handleUserLeave\<close> deletes the session from the registry although the socket stays
  connected, and a later join does not put it back, so an invitation to its nickname
  finds nobody.
\<close>

theorem C3_leave_without_room_drops_session:
  "session_room st_a ''a'' = None \<and> userSockets st_a = [''a''] \<and>
   userSockets (fst (handle st_a (LeaveRoom ''a'' 1))) = [] \<and>
   conns (fst (handle st_a (LeaveRoom ''a'' 1))) ''a'' \<noteq> None \<and>
   session_nickname
     (run st_a [LeaveRoom ''a'' 1, JoinRoom ''a'' (Some (JoinData (Some ''lobby'') (Some ''alice''))) 2])
     ''a'' = Some ''ALICE'' \<and>
   find_target
     (run st_a [LeaveRoom ''a'' 1, JoinRoom ''a'' (Some (JoinData (Some ''lobby'') (Some ''alice''))) 2])
     (Some ''ALICE'') = None"
  by code_simp

text \<open>
  A relayed chat message goes to the sockets of the transport's room of the sender's
  stored room code, the sender left out.
\<close>

lemma chat_message_receivers:
  assumes "conns st s = Some c" and "e \<in> set (snd (handle st (ChatMessage s d now gid)))"
  shows "s \<notin> receivers e \<and>
         (\<exists>rc. roomCode (userData c) = Some rc \<and> receivers e = adapter st rc - {s})"
  using assms
  by (cases "roomCode (userData c)")
     (auto simp add: chat_message_def socket_to_def
      split: option.splits chat_data.splits if_splits)

text \<open>
  C4. A relayed chat message reaches a socket whose session points at another room:
  socket b joined LOBBY and then OTHER, the join did not take it out of the transport's
  room LOBBY, and a message of socket a to LOBBY is delivered to it.
\<close>

theorem C4_chat_reaches_moved_socket:
  "session_room st_moved ''b'' = Some ''OTHER'' \<and>
   map target (snd (handle st_moved
      (ChatMessage ''a'' (Some (ChatData (Some ''hi'') (Some ''LOBBY''))) 5 ''m1''))) =
     [SocketTo ''a'' ''LOBBY''] \<and>
   map event (snd (handle st_moved
      (ChatMessage ''a'' (Some (ChatData (Some ''hi'') (Some ''LOBBY''))) 5 ''m1''))) =
     [ChatMessageEv ''m1'' (Some ''ALICE'') ''hi'' 5] \<and>
   map receivers (snd (handle st_moved
      (ChatMessage ''a'' (Some (ChatData (Some ''hi'') (Some ''LOBBY''))) 5 ''m1''))) =
     [{''b''}]"
  by code_simp

end
